theory Spec2Isabelle
  imports Complex_Main "HOL-Library.AList" "HOL-Library.Stream"
begin

section \<open>Detection engine (class DetectionEngine)\<close>

text \<open>
  The engine is a JavaScript class driven by the browser: \<open>Math.random()\<close> supplies every
  detection, \<open>Date.now()\<close> the time stamps, \<open>requestAnimationFrame\<close> the loop. The model
  makes these explicit. The results of successive \<open>Math.random()\<close> calls are a stream of
  reals that the engine consumes from the front, the results of successive clock reads a
  stream of naturals (milliseconds), the queued animation-frame callbacks a counter, and
  what the engine writes to the console or dispatches on \<open>document\<close> a list of effects,
  oldest first. Numbers are real numbers, not IEEE doubles; the one place where double
  arithmetic changes the behaviour of a counter is written out (\<open>js_incr\<close>).
  \<open>performanceMetrics\<close> and \<open>lastFrameTime\<close> hold wall-clock measurements that no
  modelled operation reads back; they are left out.
\<close>

subsection \<open>Data\<close>

record bbox =
  box_x :: real
  box_y :: real
  box_width :: real
  box_height :: real

text \<open>
  A detection's \<open>timestamp\<close> is a number (\<open>Date.now()\<close>) when the detection is generated and
  an ISO string (\<open>new Date().toISOString()\<close>) in the history copy; both are kept as the
  clock reading they render.
\<close>

datatype stamp = Millis nat | IsoString nat

text \<open>
  \<open>det_class\<close> is \<open>None\<close> for JavaScript's \<open>undefined\<close> (an array read out of range),
  \<open>det_id\<close> is \<open>None\<close> for \<open>null\<close>.
\<close>

record detection =
  det_class :: "string option"
  det_confidence :: real
  det_bbox :: bbox
  det_timestamp :: stamp
  det_id :: "nat option"

record model_config =
  classes :: "string list"
  accuracy :: real
  speed :: string
  maxDetections :: nat

datatype effect =
    LogDetection detection string
  | NewDetection detection
  | SecurityAlert detection
  | PerformanceUpdate
  | ClearDetections
  | ModelLoading bool

record engine =
  isActive :: bool
  trackingEnabled :: bool
  currentModel :: string
  confidence :: real
  detectedObjects :: "((string option \<times> nat) \<times> detection) list"
  trackingId :: nat
  detectionHistory :: "detection list"
  randoms :: "real stream"
  clock :: "nat stream"
  videoHandler :: bool
  rafQueue :: nat
  effects :: "effect list"

text \<open>
  The first seven fields are the fields the constructor sets. \<open>detectedObjects\<close> is a
  \<open>Map\<close>: an association list in insertion order. Its keys are the template strings
  \<open>`${class}_${n}`\<close>; the decimal rendering of \<open>n\<close> has no underscore, so the string determines
  the pair \<open>(class, n)\<close> and the pair is used as the key. \<open>videoHandler\<close> says whether
  \<open>window.videoHandler\<close> is set.
\<close>

definition newEngine :: "real stream \<Rightarrow> nat stream \<Rightarrow> bool \<Rightarrow> engine" where
  "newEngine rs cs vh =
     \<lparr>isActive = False, trackingEnabled = False, currentModel = ''yolov11n'',
      confidence = 0.75, detectedObjects = [], trackingId = 1, detectionHistory = [],
      randoms = rs, clock = cs, videoHandler = vh, rafQueue = 0, effects = []\<rparr>"

subsection \<open>Environment\<close>

definition mathRandom :: "engine \<Rightarrow> real \<times> engine" where
  "mathRandom s = (shd (randoms s), s\<lparr>randoms := stl (randoms s)\<rparr>)"

definition dateNow :: "engine \<Rightarrow> nat \<times> engine" where
  "dateNow s = (shd (clock s), s\<lparr>clock := stl (clock s)\<rparr>)"

definition emit :: "effect \<Rightarrow> engine \<Rightarrow> engine" where
  "emit e s = s\<lparr>effects := effects s @ [e]\<rparr>"

text \<open>\<open>xs[i]\<close> in JavaScript: \<open>undefined\<close> outside the array.\<close>

definition js_index :: "'a list \<Rightarrow> int \<Rightarrow> 'a option" where
  "js_index xs i = (if 0 \<le> i \<and> i < int (length xs) then Some (xs ! nat i) else None)"

text \<open>
  \<open>n++\<close> on a JavaScript number: integers are exact up to \<open>2^53\<close>, and \<open>2^53 + 1\<close> rounds
  back to \<open>2^53\<close>, so a counter that starts at 1 and is only incremented stops there.
\<close>

definition js_incr :: "nat \<Rightarrow> nat" where
  "js_incr n = (if n < 2 ^ 53 then n + 1 else n)"

subsection \<open>Model registry\<close>

definition yolov11n :: model_config where
  "yolov11n = \<lparr>classes = [''person'', ''vehicle''], accuracy = 0.94,
               speed = ''fast'', maxDetections = 3\<rparr>"

definition yolov11s :: model_config where
  "yolov11s = \<lparr>classes = [''person'', ''vehicle'', ''animal''], accuracy = 0.96,
               speed = ''medium'', maxDetections = 4\<rparr>"

definition yolov11m :: model_config where
  "yolov11m = \<lparr>classes = [''person'', ''vehicle'', ''animal'', ''object''], accuracy = 0.98,
               speed = ''slow'', maxDetections = 5\<rparr>"

definition foottrail :: model_config where
  "foottrail = \<lparr>classes = [''person'', ''unauthorized-trail'', ''vegetation'', ''structure''],
                accuracy = 0.92, speed = ''medium'', maxDetections = 2\<rparr>"

definition configs :: "(string \<times> model_config) list" where
  "configs = [(''yolov11n'', yolov11n), (''yolov11s'', yolov11s),
              (''yolov11m'', yolov11m), (''foottrail'', foottrail)]"

text \<open>
  \<open>configs\<close> is an object literal, so \<open>configs[modelName]\<close> also finds the members every
  object inherits from \<open>Object.prototype\<close>. Such a member is truthy, so the \<open>||\<close> does not
  replace it, and it has none of the fields of a configuration.
\<close>

definition objectPrototypeKeys :: "string list" where
  "objectPrototypeKeys =
     [''constructor'', ''hasOwnProperty'', ''isPrototypeOf'', ''propertyIsEnumerable'',
      ''toLocaleString'', ''toString'', ''valueOf'', ''__proto__'',
      ''__defineGetter__'', ''__defineSetter__'', ''__lookupGetter__'', ''__lookupSetter__'']"

datatype config_lookup = Config model_config | Inherited

definition getModelConfig :: "string \<Rightarrow> config_lookup" where
  "getModelConfig modelName =
     (case map_of configs modelName of
        Some c \<Rightarrow> Config c
      | None \<Rightarrow> if modelName \<in> set objectPrototypeKeys then Inherited else Config yolov11n)"

subsection \<open>Generating detections\<close>

definition generateBoundingBox :: "engine \<Rightarrow> bbox \<times> engine" where
  "generateBoundingBox s =
     (let canvasWidth = 1280; canvasHeight = 720;
          (r1, s1) = mathRandom s; w = r1 * 200 + 80;
          (r2, s2) = mathRandom s1; h = r2 * 300 + 120;
          (r3, s3) = mathRandom s2; x = r3 * (canvasWidth - w);
          (r4, s4) = mathRandom s3; y = r4 * (canvasHeight - h)
      in (\<lparr>box_x = x, box_y = y, box_width = w, box_height = h\<rparr>, s4))"

definition getTrackingId :: "engine \<Rightarrow> nat option \<times> engine" where
  "getTrackingId s =
     (if trackingEnabled s then (Some (trackingId s), s\<lparr>trackingId := js_incr (trackingId s)\<rparr>)
      else (None, s))"

definition generateDetection :: "model_config \<Rightarrow> engine \<Rightarrow> detection \<times> engine" where
  "generateDetection config s =
     (let (r1, s1) = mathRandom s;
          classIndex = \<lfloor>r1 * real (length (classes config))\<rfloor>;
          className = js_index (classes config) classIndex;
          (r2, s2) = mathRandom s1;
          (b, s3) = generateBoundingBox s2;
          (t, s4) = dateNow s3;
          (i, s5) = (if trackingEnabled s4 then getTrackingId s4 else (None, s4))
      in (\<lparr>det_class = className, det_confidence = r2 * (1 - confidence s) + confidence s,
           det_bbox = b, det_timestamp = Millis t, det_id = i\<rparr>, s5))"

text \<open>The \<open>for\<close> loop of \<open>simulateDetections\<close>: \<open>n\<close> detections, pushed in order.\<close>

fun generateDetections :: "nat \<Rightarrow> model_config \<Rightarrow> engine \<Rightarrow> detection list \<times> engine" where
  "generateDetections 0 config s = ([], s)"
| "generateDetections (Suc n) config s =
     (let (d, s1) = generateDetection config s;
          (ds, s2) = generateDetections n config s1
      in (d # ds, s2))"

text \<open>
  With an inherited member for a configuration, \<open>maxDetections\<close> is \<open>undefined\<close>, the count
  is \<open>NaN\<close> or 0 and the loop body never runs; the random numbers are still drawn.
\<close>

definition simulateDetections :: "engine \<Rightarrow> detection list \<times> engine" where
  "simulateDetections s =
     (let modelConfig = getModelConfig (currentModel s);
          (r0, s0) = mathRandom s
      in if r0 > 0.8 then
           (let (r1, s1) = mathRandom s0
            in case modelConfig of
                 Config c \<Rightarrow>
                   generateDetections (nat (\<lfloor>r1 * real (maxDetections c)\<rfloor> + 1)) c s1
               | Inherited \<Rightarrow> ([], s1))
         else ([], s0))"

subsection \<open>Handling a detection\<close>

text \<open>
  \<open>detection.id || Date.now()\<close> reads the clock only when the id is \<open>null\<close> or 0.
  \<open>Map.set\<close> replaces the value of a key in place and appends a new key, as
  \<open>AList.update\<close> does. \<open>Array.shift\<close> drops the first element.
\<close>

definition storeDetection :: "detection \<Rightarrow> engine \<Rightarrow> engine" where
  "storeDetection d s =
     (let (n, s1) = (case det_id d of
                       Some i \<Rightarrow> if i \<noteq> 0 then (i, s) else dateNow s
                     | None \<Rightarrow> dateNow s);
          key = (det_class d, n);
          s2 = s1\<lparr>detectedObjects := AList.update key d (detectedObjects s1)\<rparr>;
          (t, s3) = dateNow s2;
          s4 = s3\<lparr>detectionHistory := detectionHistory s3 @ [d\<lparr>det_timestamp := IsoString t\<rparr>]\<rparr>
      in if length (detectionHistory s4) > 100
         then s4\<lparr>detectionHistory := tl (detectionHistory s4)\<rparr>
         else s4)"

definition updateDetectionDisplay :: "detection \<Rightarrow> engine \<Rightarrow> engine" where
  "updateDetectionDisplay d s = (if videoHandler s then emit (NewDetection d) s else s)"

text \<open>
  The log entry renders the detection's class, confidence and id and names the current
  model; the effect keeps the detection and the model.
\<close>

definition logDetectionEvent :: "detection \<Rightarrow> engine \<Rightarrow> engine" where
  "logDetectionEvent d s = emit (LogDetection d (currentModel s)) s"

text \<open>
  The alert carries the detection's class and confidence and a severity computed from the
  class; the effect keeps the detection.
\<close>

definition triggerAlert :: "detection \<Rightarrow> engine \<Rightarrow> engine" where
  "triggerAlert d s = emit (SecurityAlert d) s"

text \<open>
  \<open>alertConditions\<close> is an object literal too: a class that names an inherited member
  finds a truthy value.
\<close>

definition alertCondition :: "detection \<Rightarrow> bool" where
  "alertCondition d =
     (case det_class d of
        None \<Rightarrow> False
      | Some c \<Rightarrow>
          if c = ''person'' then det_confidence d > 0.8
          else if c = ''unauthorized-trail'' then det_confidence d > 0.7
          else if c = ''vehicle'' then det_confidence d > 0.85
          else c \<in> set objectPrototypeKeys)"

definition checkAlerts :: "detection \<Rightarrow> engine \<Rightarrow> engine" where
  "checkAlerts d s = (if alertCondition d then triggerAlert d s else s)"

definition handleDetection :: "detection \<Rightarrow> engine \<Rightarrow> engine" where
  "handleDetection d s =
     checkAlerts d (logDetectionEvent d (updateDetectionDisplay d (storeDetection d s)))"

subsection \<open>The frame loop\<close>

definition updatePerformanceMetrics :: "engine \<Rightarrow> engine" where
  "updatePerformanceMetrics s = emit PerformanceUpdate s"

text \<open>The callback \<open>processFrame\<close> passes to \<open>forEach\<close>.\<close>

definition handleIfConfident :: "detection \<Rightarrow> engine \<Rightarrow> engine" where
  "handleIfConfident d s = (if det_confidence d \<ge> confidence s then handleDetection d s else s)"

definition processFrame :: "engine \<Rightarrow> engine" where
  "processFrame s =
     (let (detections, s1) = simulateDetections s
      in updatePerformanceMetrics (fold handleIfConfident detections s1))"

text \<open>
  \<open>requestAnimationFrame\<close> queues one more call of \<open>startDetectionLoop\<close> for the next
  animation frame.
\<close>

definition startDetectionLoop :: "engine \<Rightarrow> engine" where
  "startDetectionLoop s =
     (if \<not> isActive s then s
      else (let s1 = processFrame s in s1\<lparr>rafQueue := rafQueue s1 + 1\<rparr>))"

definition start :: "engine \<Rightarrow> engine" where
  "start s = startDetectionLoop (s\<lparr>isActive := True\<rparr>)"

definition clearAllDetections :: "engine \<Rightarrow> engine" where
  "clearAllDetections s = emit ClearDetections (s\<lparr>detectedObjects := [], trackingId := 1\<rparr>)"

definition stop :: "engine \<Rightarrow> engine" where
  "stop s = clearAllDetections (s\<lparr>isActive := False\<rparr>)"

text \<open>
  \<open>setModel\<close> also sets a two-second timer whose callback only dispatches two more
  interface events; the timer is not modelled.
\<close>

definition setModel :: "string \<Rightarrow> engine \<Rightarrow> engine" where
  "setModel modelName s = emit (ModelLoading True) (s\<lparr>currentModel := modelName\<rparr>)"

definition setConfidence :: "real \<Rightarrow> engine \<Rightarrow> engine" where
  "setConfidence c s = s\<lparr>confidence := c / 100\<rparr>"

definition clearTrackingData :: "engine \<Rightarrow> engine" where
  "clearTrackingData s =
     s\<lparr>trackingId := 1,
       detectedObjects := map (\<lambda>(k, d). (k, d\<lparr>det_id := None\<rparr>)) (detectedObjects s)\<rparr>"

definition enableTracking :: "bool \<Rightarrow> engine \<Rightarrow> engine" where
  "enableTracking enabled s =
     (let s1 = s\<lparr>trackingEnabled := enabled\<rparr>
      in if \<not> enabled then clearTrackingData s1 else s1)"

definition destroy :: "engine \<Rightarrow> engine" where
  "destroy s = (stop s)\<lparr>detectedObjects := [], detectionHistory := []\<rparr>"

text \<open>
  An animation frame runs the callbacks queued before it; what they queue runs in the
  next one.
\<close>

definition animationFrame :: "engine \<Rightarrow> engine" where
  "animationFrame s = (startDetectionLoop ^^ rafQueue s) (s\<lparr>rafQueue := 0\<rparr>)"

text \<open>What can happen to the engine: the calls of its public methods and animation frames.\<close>

datatype command =
    Start | Stop | AnimationFrame | SetModel string | SetConfidence real
  | EnableTracking bool | Destroy

fun step :: "command \<Rightarrow> engine \<Rightarrow> engine" where
  "step Start s = start s"
| "step Stop s = stop s"
| "step AnimationFrame s = animationFrame s"
| "step (SetModel m) s = setModel m s"
| "step (SetConfidence c) s = setConfidence c s"
| "step (EnableTracking b) s = enableTracking b s"
| "step Destroy s = destroy s"

definition run :: "command list \<Rightarrow> engine \<Rightarrow> engine" where
  "run cs s = fold step cs s"

subsection \<open>Observations\<close>

text \<open>The detection an effect passes on, if it passes one on.\<close>

fun carried :: "effect \<Rightarrow> detection option" where
  "carried (LogDetection d m) = Some d"
| "carried (NewDetection d) = Some d"
| "carried (SecurityAlert d) = Some d"
| "carried PerformanceUpdate = None"
| "carried ClearDetections = None"
| "carried (ModelLoading b) = None"

text \<open>What \<open>handleDetection\<close> logs and dispatches for one detection.\<close>

definition handled_effects :: "detection \<Rightarrow> engine \<Rightarrow> effect list" where
  "handled_effects d s =
     (if videoHandler s then [NewDetection d] else []) @ [LogDetection d (currentModel s)] @
     (if alertCondition d then [SecurityAlert d] else [])"

text \<open>The identifiers of a list of detections, and those the engine has logged, in order.\<close>

definition det_ids :: "detection list \<Rightarrow> nat list" where
  "det_ids ds = concat (map (\<lambda>d. case det_id d of Some i \<Rightarrow> [i] | None \<Rightarrow> []) ds)"

fun logged :: "effect \<Rightarrow> detection list" where
  "logged (LogDetection d m) = [d]"
| "logged e = []"


text \<open>
  Every call of \<open>processFrame\<close> ends by dispatching one \<open>performanceUpdate\<close>, and nothing
  else in the model dispatches one: their number is the number of frames processed.
\<close>

definition framesProcessed :: "engine \<Rightarrow> nat" where
  "framesProcessed s = length (filter (\<lambda>e. e = PerformanceUpdate) (effects s))"



text \<open>
  Two engines with the same fields, the same next \<open>k\<close> random numbers and the same next \<open>j\<close>
  clock readings.
\<close>

definition agree :: "nat \<Rightarrow> nat \<Rightarrow> engine \<Rightarrow> engine \<Rightarrow> bool" where
  "agree k j s s' \<longleftrightarrow>
     s'\<lparr>randoms := randoms s, clock := clock s\<rparr> = s \<and>
     stake k (randoms s') = stake k (randoms s) \<and>
     stake j (clock s') = stake j (clock s)"

section \<open>Video handler (class VideoHandler)\<close>

text \<open>
  The handler draws one box per detection into the overlay element and one entry per
  detection into the alert list. A box and an alert entry are kept as the detection they
  were made from. \<open>confidence\<close> is the string \<open>toFixed(2)\<close> returns, kept as the number it
  renders (two decimals, rounded half up). The rectangle of the canvas comes from the
  page layout and is a field of the model. The timers that fade a box out after two
  seconds are not modelled: the next frame clears the overlay long before.
\<close>

record shown_detection =
  sd_id :: int
  sd_class :: string
  sd_confidence :: real
  sd_bbox :: bbox
  sd_color :: "string option"

record video_handler =
  isProcessing :: bool
  overlay :: "shown_detection list"
  alerts :: "shown_detection list"
  canvasRectWidth :: real
  canvasRectHeight :: real
  vh_randoms :: "real stream"
  vh_rafQueue :: nat

definition mathRandom_vh :: "video_handler \<Rightarrow> real \<times> video_handler" where
  "mathRandom_vh v = (shd (vh_randoms v), v\<lparr>vh_randoms := stl (vh_randoms v)\<rparr>)"

definition colors :: "string list" where
  "colors = [''#00E5FF'', ''#39FF14'', ''#FF5252'', ''#FFA726'',
             ''#AB47BC'', ''#42A5F5'', ''#66BB6A'', ''#FF7043'']"

definition getRandomColor :: "video_handler \<Rightarrow> string option \<times> video_handler" where
  "getRandomColor v =
     (let (r, v1) = mathRandom_vh v
      in (js_index colors \<lfloor>r * real (length colors)\<rfloor>, v1))"

definition toFixed2 :: "real \<Rightarrow> real" where
  "toFixed2 a = real_of_int \<lfloor>a * 100 + 1 / 2\<rfloor> / 100"

definition generateRandomDetection :: "video_handler \<Rightarrow> shown_detection \<times> video_handler" where
  "generateRandomDetection v =
     (let (r1, v1) = mathRandom_vh v;
          (r2, v2) = mathRandom_vh v1;
          (r3, v3) = mathRandom_vh v2;
          (r4, v4) = mathRandom_vh v3;
          (r5, v5) = mathRandom_vh v4;
          (r6, v6) = mathRandom_vh v5;
          (c, v7) = getRandomColor v6
      in (\<lparr>sd_id = \<lfloor>r1 * 100\<rfloor>, sd_class = ''person'',
           sd_confidence = toFixed2 (r2 * 0.3 + 0.7),
           sd_bbox = \<lparr>box_x = r3 * (canvasRectWidth v - 150),
                      box_y = r4 * (canvasRectHeight v - 200),
                      box_width = 100 + r5 * 50, box_height = 150 + r6 * 50\<rparr>,
           sd_color = c\<rparr>, v7))"

definition drawDetection :: "shown_detection \<Rightarrow> video_handler \<Rightarrow> video_handler" where
  "drawDetection d v = v\<lparr>overlay := overlay v @ [d]\<rparr>"

text \<open>
  The new alert goes in front; the \<open>while\<close> loop then removes the last entry until at most
  five are left.
\<close>

definition addDetectionAlert :: "shown_detection \<Rightarrow> video_handler \<Rightarrow> video_handler" where
  "addDetectionAlert d v = v\<lparr>alerts := take 5 (d # alerts v)\<rparr>"

definition clearDetections_vh :: "video_handler \<Rightarrow> video_handler" where
  "clearDetections_vh v = v\<lparr>overlay := []\<rparr>"

definition simulateDetections_vh :: "video_handler \<Rightarrow> video_handler" where
  "simulateDetections_vh v =
     (let v0 = clearDetections_vh v;
          (r, v1) = mathRandom_vh v0
      in if r > 0.7 then
           (let (detection, v2) = generateRandomDetection v1
            in addDetectionAlert detection (drawDetection detection v2))
         else v1)"

text \<open>Drawing the video frame onto the canvas changes nothing the model keeps.\<close>

definition processFrame_vh :: "video_handler \<Rightarrow> video_handler" where
  "processFrame_vh v =
     (if \<not> isProcessing v then v
      else (let v1 = simulateDetections_vh v in v1\<lparr>vh_rafQueue := vh_rafQueue v1 + 1\<rparr>))"

definition startProcessing :: "video_handler \<Rightarrow> video_handler" where
  "startProcessing v = (if isProcessing v then v else processFrame_vh (v\<lparr>isProcessing := True\<rparr>))"

definition stopProcessing :: "video_handler \<Rightarrow> video_handler" where
  "stopProcessing v = clearDetections_vh (v\<lparr>isProcessing := False\<rparr>)"

section \<open>Track expiry (tracker configuration, \<open>track_buffer\<close>)\<close>

text \<open>
  The tracker configuration sets \<open>track_buffer: 30\<close>, the "number of frames to keep lost
  tracks"; the tracker that reads it is not among the sources.
\<close>

definition track_buffer :: nat where
  "track_buffer = 30"

text \<open>
  Modelled from the spec: the track's lifecycle states, of which the tracker's code is
  missing. "State \<open>\<in>\<close> {Tentative, Confirmed, Lost, Removed}."
\<close>

datatype track_state = Tentative | Confirmed | Lost | Removed

text \<open>
  Modelled from the spec: the track, of which the tracker's code is missing, with the
  attributes expiry depends on: the "unique monotonically increasing identifier", the
  state and the "number of consecutive frames since last successful match
  (time-since-update)".
\<close>

record track =
  track_ident :: nat
  track_state :: track_state
  time_since_update :: nat

text \<open>
  Modelled from the spec: the association engine's step 4, of which the tracker's code is
  missing. "Update matched tracks: [...] reset time-since-update to 0, [...] transition
  Tentative\<rightarrow>Confirmed or Lost\<rightarrow>Confirmed as appropriate."
\<close>

definition update_matched :: "track \<Rightarrow> track" where
  "update_matched t =
     t\<lparr>time_since_update := 0,
       track_state := (case track_state t of
                         Tentative \<Rightarrow> Confirmed | Lost \<Rightarrow> Confirmed | st \<Rightarrow> st)\<rparr>"

text \<open>
  Modelled from the spec: the association engine's step 5, of which the tracker's code is
  missing. "Age unmatched tracks: increment time-since-update; transition Confirmed\<rightarrow>Lost
  on first miss; transition Lost\<rightarrow>Removed once time-since-update exceeds \<open>track_buffer\<close>
  frames; discard Removed tracks from the live set permanently." The spec names no
  transition for an unmatched Tentative track; it keeps its state here.
\<close>

definition age_unmatched :: "nat \<Rightarrow> track \<Rightarrow> track" where
  "age_unmatched buffer t =
     (let t1 = t\<lparr>time_since_update := time_since_update t + 1\<rparr>
      in case track_state t1 of
           Confirmed \<Rightarrow> t1\<lparr>track_state := Lost\<rparr>
         | Lost \<Rightarrow> if time_since_update t1 > buffer then t1\<lparr>track_state := Removed\<rparr> else t1
         | Tentative \<Rightarrow> t1
         | Removed \<Rightarrow> t1)"

text \<open>
  Modelled from the spec: a frame with an empty detection set, of which the tracker's code
  is missing. "An empty detection set simply ages all tracks (steps 1, 5)." The live set
  is kept in identifier order; ageing does not reorder it.
\<close>

definition age_all :: "nat \<Rightarrow> track list \<Rightarrow> track list" where
  "age_all buffer ts = filter (\<lambda>t. track_state t \<noteq> Removed) (map (age_unmatched buffer) ts)"

section \<open>Concrete inputs\<close>

text \<open>
  An engine with tracking switched on whose next two frames each draw the same eight
  random numbers: one detection, a person at the same place with the same confidence.
\<close>

definition example_draws :: "real list" where
  "example_draws = [0.9, 0, 0, 0.5, 0.5, 0.5, 0.5, 0.5]"

definition example_engine :: engine where
  "example_engine =
     enableTracking True
       (newEngine (example_draws @- example_draws @- sconst 0) (sconst 1700000000000) False)"

definition example_detection :: detection where
  "example_detection =
     \<lparr>det_class = Some ''person'', det_confidence = 0.875,
      det_bbox = \<lparr>box_x = 550, box_y = 225, box_width = 180, box_height = 270\<rparr>,
      det_timestamp = Millis 1700000000000, det_id = Some 1\<rparr>"


text \<open>An engine whose history is full.\<close>

definition full_engine :: engine where
  "full_engine = (newEngine (sconst 0) (sconst 1700000000000) False)
     \<lparr>detectionHistory := replicate 100 example_detection\<rparr>"

text \<open>
  Two engines fresh from the constructor that differ in their random numbers only: every
  draw is 0.9 for the first and 0 for the second.
\<close>

definition busy_engine :: engine where
  "busy_engine = newEngine (sconst 0.9) (sconst 1700000000000) False"







text \<open>A track that was lost for three frames and is about to be matched again.\<close>

definition example_track :: track where
  "example_track = \<lparr>track_ident = 1, track_state = Lost, time_since_update = 3\<rparr>"

section \<open>Properties of the detection engine\<close>

subsection \<open>What each operation leaves alone\<close>

lemma emit_fields [simp]:
  "isActive (emit e s) = isActive s" "trackingEnabled (emit e s) = trackingEnabled s"
  "currentModel (emit e s) = currentModel s" "confidence (emit e s) = confidence s"
  "detectedObjects (emit e s) = detectedObjects s" "trackingId (emit e s) = trackingId s"
  "detectionHistory (emit e s) = detectionHistory s" "randoms (emit e s) = randoms s"
  "clock (emit e s) = clock s" "videoHandler (emit e s) = videoHandler s"
  "rafQueue (emit e s) = rafQueue s" "effects (emit e s) = effects s @ [e]"
  by (simp_all add: emit_def)

lemma storeDetection_same [simp]:
  "isActive (storeDetection d s) = isActive s" "trackingEnabled (storeDetection d s) = trackingEnabled s"
  "currentModel (storeDetection d s) = currentModel s" "confidence (storeDetection d s) = confidence s"
  "trackingId (storeDetection d s) = trackingId s" "randoms (storeDetection d s) = randoms s"
  "videoHandler (storeDetection d s) = videoHandler s"
  "rafQueue (storeDetection d s) = rafQueue s" "effects (storeDetection d s) = effects s"
  by (simp_all add: storeDetection_def dateNow_def Let_def split_beta split: option.splits)

lemma storeDetection_length:
  "length (detectionHistory s) \<le> 100 \<Longrightarrow> length (detectionHistory (storeDetection d s)) \<le> 100"
  by (simp add: storeDetection_def dateNow_def Let_def split_beta split: option.splits)

lemma storeDetection_evicts:
  "length (detectionHistory s) = 100 \<Longrightarrow>
   \<exists>t. detectionHistory (storeDetection d s) = tl (detectionHistory s) @ [d\<lparr>det_timestamp := IsoString t\<rparr>]"
  by (cases "detectionHistory s") (auto simp add: storeDetection_def dateNow_def Let_def split_beta split: option.splits)

lemma storeDetection_appends:
  "length (detectionHistory s) < 100 \<Longrightarrow>
   \<exists>t. detectionHistory (storeDetection d s) = detectionHistory s @ [d\<lparr>det_timestamp := IsoString t\<rparr>]"
  by (auto simp add: storeDetection_def dateNow_def Let_def split_beta split: option.splits)

lemma set_AList_update: "set (AList.update k v al) \<subseteq> insert (k, v) (set al)"
  by (induction al) auto

lemma storeDetection_history:
  "\<exists>t. detectionHistory (storeDetection d s) =
     (if length (detectionHistory s) \<ge> 100
      then tl (detectionHistory s @ [d\<lparr>det_timestamp := IsoString t\<rparr>])
      else detectionHistory s @ [d\<lparr>det_timestamp := IsoString t\<rparr>])"
  by (auto simp add: storeDetection_def dateNow_def Let_def split_beta split: option.splits)

lemma storeDetection_history_set:
  assumes "h \<in> set (detectionHistory (storeDetection d s))"
  shows "h \<in> set (detectionHistory s) \<or> det_confidence h = det_confidence d"
proof -
  obtain t where
    eq: "detectionHistory (storeDetection d s) =
           (if length (detectionHistory s) \<ge> 100
            then tl (detectionHistory s @ [d\<lparr>det_timestamp := IsoString t\<rparr>])
            else detectionHistory s @ [d\<lparr>det_timestamp := IsoString t\<rparr>])"
    using storeDetection_history by blast
  have "h \<in> set (detectionHistory s @ [d\<lparr>det_timestamp := IsoString t\<rparr>])"
  proof (cases "length (detectionHistory s) \<ge> 100")
    case True
    with assms eq have "h \<in> set (tl (detectionHistory s @ [d\<lparr>det_timestamp := IsoString t\<rparr>]))"
      by simp
    then show ?thesis
      by (rule list.set_sel(2)[rotated]) simp
  next
    case False
    with assms eq show ?thesis by simp
  qed
  then show ?thesis by auto
qed

lemma storeDetection_objects_set:
  "kd \<in> set (detectedObjects (storeDetection d s)) \<Longrightarrow>
   kd \<in> set (detectedObjects s) \<or> snd kd = d"
  using set_AList_update
  by (fastforce simp add: storeDetection_def dateNow_def Let_def split_beta split: option.splits if_splits)

lemma handleDetection_effects:
  "effects (handleDetection d s) = effects s @ handled_effects d s"
  by (simp add: handleDetection_def checkAlerts_def triggerAlert_def logDetectionEvent_def
      updateDetectionDisplay_def handled_effects_def)

lemma handleDetection_same [simp]:
  "isActive (handleDetection d s) = isActive s" "trackingEnabled (handleDetection d s) = trackingEnabled s"
  "currentModel (handleDetection d s) = currentModel s" "confidence (handleDetection d s) = confidence s"
  "trackingId (handleDetection d s) = trackingId s" "randoms (handleDetection d s) = randoms s"
  "videoHandler (handleDetection d s) = videoHandler s"
  "rafQueue (handleDetection d s) = rafQueue s"
  "detectionHistory (handleDetection d s) = detectionHistory (storeDetection d s)"
  "detectedObjects (handleDetection d s) = detectedObjects (storeDetection d s)"
  by (simp_all add: handleDetection_def checkAlerts_def triggerAlert_def logDetectionEvent_def
      updateDetectionDisplay_def)


lemma generateDetection_snd:
  "snd (generateDetection c s) =
     s\<lparr>trackingId := (if trackingEnabled s then js_incr (trackingId s) else trackingId s),
       randoms := stl (stl (stl (stl (stl (stl (randoms s)))))), clock := stl (clock s)\<rparr>"
  by (simp add: generateDetection_def generateBoundingBox_def getTrackingId_def mathRandom_def
      dateNow_def Let_def split_beta)

lemma generateDetection_state:
  "\<exists>rs ck tid. snd (generateDetection c s) = s\<lparr>trackingId := tid, randoms := rs, clock := ck\<rparr>"
  using generateDetection_snd by blast

lemma generateDetections_state:
  "\<exists>rs ck tid. snd (generateDetections n c s) = s\<lparr>trackingId := tid, randoms := rs, clock := ck\<rparr>"
proof (induction n arbitrary: s)
  case 0
  have "s = s\<lparr>trackingId := trackingId s, randoms := randoms s, clock := clock s\<rparr>" by simp
  then show ?case by (metis generateDetections.simps(1) snd_conv)
next
  case (Suc n)
  obtain rs ck tid where 1: "snd (generateDetection c s) = s\<lparr>trackingId := tid, randoms := rs, clock := ck\<rparr>"
    using generateDetection_state by blast
  obtain rs' ck' tid' where 2: "snd (generateDetections n c (snd (generateDetection c s))) =
      (snd (generateDetection c s))\<lparr>trackingId := tid', randoms := rs', clock := ck'\<rparr>"
    using Suc.IH by blast
  have "snd (generateDetections (Suc n) c s) = s\<lparr>trackingId := tid', randoms := rs', clock := ck'\<rparr>"
    by (simp add: split_beta 2) (simp add: 1)
  then show ?case by blast
qed

lemma simulateDetections_state:
  "\<exists>rs ck tid. snd (simulateDetections s) = s\<lparr>trackingId := tid, randoms := rs, clock := ck\<rparr>"
proof -
  have triv: "\<And>rs. \<exists>rs' ck tid. s\<lparr>randoms := rs\<rparr> = s\<lparr>trackingId := tid, randoms := rs', clock := ck\<rparr>"
  proof -
    fix rs
    have "s\<lparr>randoms := rs\<rparr> = s\<lparr>trackingId := trackingId s, randoms := rs, clock := clock s\<rparr>" by simp
    then show "\<exists>rs' ck tid. s\<lparr>randoms := rs\<rparr> = s\<lparr>trackingId := tid, randoms := rs', clock := ck\<rparr>" by blast
  qed
  have gen: "\<And>n c rs. \<exists>rs' ck tid. snd (generateDetections n c (s\<lparr>randoms := rs\<rparr>)) =
        s\<lparr>trackingId := tid, randoms := rs', clock := ck\<rparr>"
  proof -
    fix n c rs
    obtain rs' ck tid where "snd (generateDetections n c (s\<lparr>randoms := rs\<rparr>)) =
        s\<lparr>randoms := rs\<rparr>\<lparr>trackingId := tid, randoms := rs', clock := ck\<rparr>"
      using generateDetections_state by blast
    then have "snd (generateDetections n c (s\<lparr>randoms := rs\<rparr>)) = s\<lparr>trackingId := tid, randoms := rs', clock := ck\<rparr>"
      by simp
    then show "\<exists>rs' ck tid. snd (generateDetections n c (s\<lparr>randoms := rs\<rparr>)) =
        s\<lparr>trackingId := tid, randoms := rs', clock := ck\<rparr>" by blast
  qed
  show ?thesis
    by (simp add: simulateDetections_def mathRandom_def Let_def split_beta triv gen
        split: config_lookup.splits)
qed

lemma simulateDetections_same [simp]:
  "isActive (snd (simulateDetections s)) = isActive s"
  "trackingEnabled (snd (simulateDetections s)) = trackingEnabled s"
  "currentModel (snd (simulateDetections s)) = currentModel s"
  "confidence (snd (simulateDetections s)) = confidence s"
  "detectedObjects (snd (simulateDetections s)) = detectedObjects s"
  "detectionHistory (snd (simulateDetections s)) = detectionHistory s"
  "videoHandler (snd (simulateDetections s)) = videoHandler s"
  "rafQueue (snd (simulateDetections s)) = rafQueue s"
  "effects (snd (simulateDetections s)) = effects s"
proof -
  obtain rs ck tid where "snd (simulateDetections s) = s\<lparr>trackingId := tid, randoms := rs, clock := ck\<rparr>"
    using simulateDetections_state by blast
  then show
    "isActive (snd (simulateDetections s)) = isActive s"
    "trackingEnabled (snd (simulateDetections s)) = trackingEnabled s"
    "currentModel (snd (simulateDetections s)) = currentModel s"
    "confidence (snd (simulateDetections s)) = confidence s"
    "detectedObjects (snd (simulateDetections s)) = detectedObjects s"
    "detectionHistory (snd (simulateDetections s)) = detectionHistory s"
    "videoHandler (snd (simulateDetections s)) = videoHandler s"
    "rafQueue (snd (simulateDetections s)) = rafQueue s"
    "effects (snd (simulateDetections s)) = effects s"
    by simp_all
qed

lemma handleIfConfident_threshold:
  assumes "confidence s = c"
  shows "confidence (handleIfConfident d s) = c"
    and "\<exists>new. effects (handleIfConfident d s) = effects s @ new \<and>
           (\<forall>e\<in>set new. \<forall>d'. carried e = Some d' \<longrightarrow> c \<le> det_confidence d')"
    and "\<forall>h\<in>set (detectionHistory (handleIfConfident d s)).
           h \<in> set (detectionHistory s) \<or> c \<le> det_confidence h"
    and "\<forall>kd\<in>set (detectedObjects (handleIfConfident d s)).
           kd \<in> set (detectedObjects s) \<or> c \<le> det_confidence (snd kd)"
proof -
  show "confidence (handleIfConfident d s) = c"
    using assms by (simp add: handleIfConfident_def)
  show "\<exists>new. effects (handleIfConfident d s) = effects s @ new \<and>
           (\<forall>e\<in>set new. \<forall>d'. carried e = Some d' \<longrightarrow> c \<le> det_confidence d')"
    using assms
    by (auto simp add: handleIfConfident_def handleDetection_effects handled_effects_def)
  show "\<forall>h\<in>set (detectionHistory (handleIfConfident d s)).
           h \<in> set (detectionHistory s) \<or> c \<le> det_confidence h"
  proof
    fix h assume h: "h \<in> set (detectionHistory (handleIfConfident d s))"
    show "h \<in> set (detectionHistory s) \<or> c \<le> det_confidence h"
    proof (cases "det_confidence d \<ge> confidence s")
      case True
      with h have "h \<in> set (detectionHistory (storeDetection d s))"
        by (simp add: handleIfConfident_def)
      from storeDetection_history_set[OF this] True assms show ?thesis by auto
    next
      case False
      with h show ?thesis by (simp add: handleIfConfident_def)
    qed
  qed
  show "\<forall>kd\<in>set (detectedObjects (handleIfConfident d s)).
           kd \<in> set (detectedObjects s) \<or> c \<le> det_confidence (snd kd)"
  proof
    fix kd assume kd: "kd \<in> set (detectedObjects (handleIfConfident d s))"
    show "kd \<in> set (detectedObjects s) \<or> c \<le> det_confidence (snd kd)"
    proof (cases "det_confidence d \<ge> confidence s")
      case True
      with kd have "kd \<in> set (detectedObjects (storeDetection d s))"
        by (simp add: handleIfConfident_def)
      from storeDetection_objects_set[OF this] True assms show ?thesis by auto
    next
      case False
      with kd show ?thesis by (simp add: handleIfConfident_def)
    qed
  qed
qed

lemma fold_handle_threshold:
  assumes "confidence s = c"
  shows "confidence (fold handleIfConfident ds s) = c \<and>
     (\<exists>new. effects (fold handleIfConfident ds s) = effects s @ new \<and>
           (\<forall>e\<in>set new. \<forall>d'. carried e = Some d' \<longrightarrow> c \<le> det_confidence d')) \<and>
     (\<forall>h\<in>set (detectionHistory (fold handleIfConfident ds s)).
           h \<in> set (detectionHistory s) \<or> c \<le> det_confidence h) \<and>
     (\<forall>kd\<in>set (detectedObjects (fold handleIfConfident ds s)).
           kd \<in> set (detectedObjects s) \<or> c \<le> det_confidence (snd kd))"
  using assms
proof (induction ds arbitrary: s)
  case Nil
  then show ?case by simp
next
  case (Cons d ds)
  let ?s1 = "handleIfConfident d s"
  note step = handleIfConfident_threshold[OF Cons.prems, of d]
  note rest = Cons.IH[OF step(1)]
  from step(2) obtain new1 where n1: "effects ?s1 = effects s @ new1"
    "\<forall>e\<in>set new1. \<forall>d'. carried e = Some d' \<longrightarrow> c \<le> det_confidence d'" by blast
  from rest obtain new2 where n2: "effects (fold handleIfConfident ds ?s1) = effects ?s1 @ new2"
    "\<forall>e\<in>set new2. \<forall>d'. carried e = Some d' \<longrightarrow> c \<le> det_confidence d'" by blast
  have eff: "\<exists>new. effects (fold handleIfConfident (d # ds) s) = effects s @ new \<and>
           (\<forall>e\<in>set new. \<forall>d'. carried e = Some d' \<longrightarrow> c \<le> det_confidence d')"
    using n1 n2 by (intro exI[of _ "new1 @ new2"]) auto
  have hist: "\<forall>h\<in>set (detectionHistory (fold handleIfConfident (d # ds) s)).
           h \<in> set (detectionHistory s) \<or> c \<le> det_confidence h"
    using rest step(3) by auto
  have objs: "\<forall>kd\<in>set (detectedObjects (fold handleIfConfident (d # ds) s)).
           kd \<in> set (detectedObjects s) \<or> c \<le> det_confidence (snd kd)"
    using rest step(4) by auto
  from rest eff hist objs show ?case by simp
qed

subsection \<open>Evaluating the examples\<close>

lemmas engine_defs =
  newEngine_def enableTracking_def processFrame_def simulateDetections_def
  mathRandom_def dateNow_def getModelConfig_def configs_def yolov11n_def generateDetection_def
  generateBoundingBox_def getTrackingId_def js_incr_def js_index_def handleIfConfident_def
  handleDetection_def storeDetection_def updateDetectionDisplay_def logDetectionEvent_def
  checkAlerts_def alertCondition_def triggerAlert_def emit_def updatePerformanceMetrics_def Let_def


lemmas example_defs = example_engine_def example_draws_def example_detection_def

lemma example_frame:
  "effects (processFrame example_engine) =
     [LogDetection example_detection ''yolov11n'', SecurityAlert example_detection, PerformanceUpdate]"
  by (simp add: example_engine_def example_draws_def example_detection_def engine_defs)

subsection \<open>The confidence threshold\<close>

lemma generateDetection_confidence:
  "det_confidence (fst (generateDetection c s)) =
     shd (stl (randoms s)) * (1 - confidence s) + confidence s"
  by (simp add: generateDetection_def generateBoundingBox_def getTrackingId_def mathRandom_def
      dateNow_def Let_def split_beta)

lemma sset_stl: "sset (stl xs) \<subseteq> sset xs"
  by (cases xs) auto

lemma generateDetection_randoms:
  "sset (randoms (snd (generateDetection c s))) \<subseteq> sset (randoms s)"
proof -
  have "sset (stl (stl (stl (stl (stl (stl (randoms s))))))) \<subseteq> sset (randoms s)"
    using sset_stl by (meson order_trans)
  then show ?thesis by (simp add: generateDetection_snd)
qed

lemma generateDetections_confidence:
  assumes "confidence s \<le> 1" and "\<forall>r\<in>sset (randoms s). 0 \<le> r"
  shows "\<forall>d\<in>set (fst (generateDetections n c s)). confidence s \<le> det_confidence d"
  using assms
proof (induction n arbitrary: s)
  case 0
  then show ?case by simp
next
  case (Suc n)
  let ?s1 = "snd (generateDetection c s)"
  have c1: "confidence ?s1 = confidence s" by (simp add: generateDetection_snd)
  have "shd (stl (randoms s)) \<in> sset (randoms s)"
    by (metis shd_sset stl_sset)
  with Suc.prems have "0 \<le> shd (stl (randoms s)) * (1 - confidence s)" by simp
  then have hd: "confidence s \<le> det_confidence (fst (generateDetection c s))"
    by (simp add: generateDetection_confidence)
  have "\<forall>r\<in>sset (randoms ?s1). 0 \<le> r"
    using Suc.prems(2) generateDetection_randoms[of c s] by blast
  with Suc.IH[of ?s1] Suc.prems(1) c1
  have "\<forall>d\<in>set (fst (generateDetections n c ?s1)). confidence s \<le> det_confidence d"
    by simp
  with hd show ?case by (simp add: split_beta)
qed

lemma simulateDetections_confidence:
  assumes "confidence s \<le> 1" and "\<forall>r\<in>sset (randoms s). 0 \<le> r"
  shows "\<forall>d\<in>set (fst (simulateDetections s)). confidence s \<le> det_confidence d"
proof -
  let ?s2 = "s\<lparr>randoms := stl (stl (randoms s))\<rparr>"
  have "sset (stl (stl (randoms s))) \<subseteq> sset (randoms s)"
    using sset_stl by (meson order_trans)
  with assms(2) have r: "\<forall>r\<in>sset (randoms ?s2). 0 \<le> r" by auto
  have c: "confidence ?s2 \<le> 1" using assms(1) by simp
  have "\<forall>d\<in>set (fst (generateDetections n c ?s2)). confidence s \<le> det_confidence d" for n c
    using generateDetections_confidence[OF c r, of n c] by simp
  then show ?thesis
    by (simp add: simulateDetections_def mathRandom_def Let_def split_beta
        split: config_lookup.splits)
qed

text \<open>
  Claim C3. In every frame and for every confidence threshold, whatever the engine logs,
  displays or raises an alert for in that frame carries a detection whose confidence is at
  least the threshold, and so does every entry the frame adds to the history and to the
  stored objects: a detection below the threshold is never handled. With a threshold of
  at most 1 (and \<open>Math.random()\<close> never negative) none is generated either.
\<close>

theorem handled_detections_meet_threshold:
  "(\<exists>new. effects (processFrame s) = effects s @ new \<and>
       (\<forall>e\<in>set new. \<forall>d. carried e = Some d \<longrightarrow> confidence s \<le> det_confidence d)) \<and>
   (\<forall>h\<in>set (detectionHistory (processFrame s)).
       h \<in> set (detectionHistory s) \<or> confidence s \<le> det_confidence h) \<and>
   (\<forall>kd\<in>set (detectedObjects (processFrame s)).
       kd \<in> set (detectedObjects s) \<or> confidence s \<le> det_confidence (snd kd)) \<and>
   (confidence s \<le> 1 \<and> (\<forall>r\<in>sset (randoms s). 0 \<le> r) \<longrightarrow>
      (\<forall>d\<in>set (fst (simulateDetections s)). confidence s \<le> det_confidence d))"
proof -
  let ?ds = "fst (simulateDetections s)" and ?s1 = "snd (simulateDetections s)"
  have c: "confidence ?s1 = confidence s" by simp
  note f = fold_handle_threshold[OF c, of ?ds]
  from f obtain new where n: "effects (fold handleIfConfident ?ds ?s1) = effects ?s1 @ new"
    "\<forall>e\<in>set new. \<forall>d'. carried e = Some d' \<longrightarrow> confidence s \<le> det_confidence d'" by blast
  have pf: "processFrame s = updatePerformanceMetrics (fold handleIfConfident ?ds ?s1)"
    by (simp add: processFrame_def split_beta)
  have "effects (processFrame s) = effects s @ (new @ [PerformanceUpdate])"
    by (simp add: pf updatePerformanceMetrics_def n(1))
  moreover have "\<forall>e\<in>set (new @ [PerformanceUpdate]).
      \<forall>d. carried e = Some d \<longrightarrow> confidence s \<le> det_confidence d"
    using n(2) by auto
  ultimately have eff: "\<exists>new. effects (processFrame s) = effects s @ new \<and>
       (\<forall>e\<in>set new. \<forall>d. carried e = Some d \<longrightarrow> confidence s \<le> det_confidence d)" by blast
  from f have hist: "\<forall>h\<in>set (detectionHistory (processFrame s)).
       h \<in> set (detectionHistory s) \<or> confidence s \<le> det_confidence h"
    by (simp add: pf updatePerformanceMetrics_def)
  from f have objs: "\<forall>kd\<in>set (detectedObjects (processFrame s)).
       kd \<in> set (detectedObjects s) \<or> confidence s \<le> det_confidence (snd kd)"
    by (simp add: pf updatePerformanceMetrics_def)
  have gen: "confidence s \<le> 1 \<and> (\<forall>r\<in>sset (randoms s). 0 \<le> r) \<longrightarrow>
      (\<forall>d\<in>set (fst (simulateDetections s)). confidence s \<le> det_confidence d)"
    using simulateDetections_confidence[of s] by blast
  from eff hist objs gen show ?thesis by blast
qed

theorem handled_detections_meet_threshold_witness:
  "effects example_engine = [] \<and> confidence example_engine \<le> 1 \<and>
   carried (LogDetection example_detection ''yolov11n'') = Some example_detection \<and>
   LogDetection example_detection ''yolov11n'' \<in> set (effects (processFrame example_engine)) \<and>
   example_detection \<in> set (fst (simulateDetections example_engine)) \<and>
   confidence example_engine \<le> det_confidence example_detection"
proof -
  have e0: "effects example_engine = []" and c1: "confidence example_engine \<le> 1"
    and pos: "\<forall>r\<in>sset (randoms example_engine). 0 \<le> r"
    by (auto simp add: example_engine_def example_draws_def newEngine_def enableTracking_def)
  have gen: "example_detection \<in> set (fst (simulateDetections example_engine))"
    by (simp add: example_defs engine_defs)
  note t = handled_detections_meet_threshold[of example_engine]
  from t obtain new where
    new: "effects (processFrame example_engine) = effects example_engine @ new"
    and ok: "\<forall>e\<in>set new. \<forall>d. carried e = Some d \<longrightarrow> confidence example_engine \<le> det_confidence d"
    by blast
  from new e0 have "new = [LogDetection example_detection ''yolov11n'',
      SecurityAlert example_detection, PerformanceUpdate]"
    by (simp add: example_frame)
  then have mem: "LogDetection example_detection ''yolov11n'' \<in> set new"
    by simp
  from t c1 pos gen have "confidence example_engine \<le> det_confidence example_detection"
    by blast
  with e0 c1 mem new gen show ?thesis by simp
qed

subsection \<open>The history buffer\<close>

lemma fold_handle_history:
  "length (detectionHistory s) \<le> 100 \<Longrightarrow>
   length (detectionHistory (fold handleIfConfident ds s)) \<le> 100"
  by (induction ds arbitrary: s) (simp_all add: handleIfConfident_def storeDetection_length)

lemma processFrame_history:
  "length (detectionHistory s) \<le> 100 \<Longrightarrow> length (detectionHistory (processFrame s)) \<le> 100"
  by (simp add: processFrame_def split_beta updatePerformanceMetrics_def fold_handle_history)

lemma startDetectionLoop_history:
  "length (detectionHistory s) \<le> 100 \<Longrightarrow> length (detectionHistory (startDetectionLoop s)) \<le> 100"
  by (simp add: startDetectionLoop_def Let_def processFrame_history)

lemma funpow_startDetectionLoop_history:
  "length (detectionHistory s) \<le> 100 \<Longrightarrow>
   length (detectionHistory ((startDetectionLoop ^^ n) s)) \<le> 100"
  by (induction n) (simp_all add: startDetectionLoop_history)

lemma step_history:
  "length (detectionHistory s) \<le> 100 \<Longrightarrow> length (detectionHistory (step c s)) \<le> 100"
  by (cases c)
     (simp_all add: start_def stop_def animationFrame_def setModel_def setConfidence_def
        enableTracking_def destroy_def clearAllDetections_def clearTrackingData_def Let_def
        startDetectionLoop_history funpow_startDetectionLoop_history)

lemma run_history:
  "length (detectionHistory s) \<le> 100 \<Longrightarrow> length (detectionHistory (run cs s)) \<le> 100"
  unfolding run_def by (induction cs arbitrary: s) (simp_all add: step_history)

text \<open>
  Claim C10. The history never holds more than 100 entries: it does not in any state the
  engine reaches from its constructor, a call of \<open>storeDetection\<close> on a history of at most
  100 entries leaves at most 100, and when the history is full the call drops the oldest
  entry and appends the new one.
\<close>

theorem history_at_most_100:
  "length (detectionHistory (run cs (newEngine rs ck vh))) \<le> 100 \<and>
   (length (detectionHistory s) \<le> 100 \<longrightarrow>
      length (detectionHistory (storeDetection d s)) \<le> 100 \<and>
      (length (detectionHistory s) = 100 \<longrightarrow>
         (\<exists>t. detectionHistory (storeDetection d s) =
                tl (detectionHistory s) @ [d\<lparr>det_timestamp := IsoString t\<rparr>])))"
proof -
  have "length (detectionHistory (newEngine rs ck vh)) \<le> 100"
    by (simp add: newEngine_def)
  then have "length (detectionHistory (run cs (newEngine rs ck vh))) \<le> 100"
    by (rule run_history)
  then show ?thesis
    using storeDetection_length[of s d] storeDetection_evicts[of s d] by blast
qed

theorem history_at_most_100_witness:
  "length (detectionHistory full_engine) = 100 \<and>
   length (detectionHistory (storeDetection example_detection full_engine)) \<le> 100 \<and>
   (\<exists>t. detectionHistory (storeDetection example_detection full_engine) =
          tl (detectionHistory full_engine) @ [example_detection\<lparr>det_timestamp := IsoString t\<rparr>])"
proof -
  have len: "length (detectionHistory full_engine) = 100"
    by (simp add: full_engine_def)
  then have "length (detectionHistory full_engine) \<le> 100" by simp
  with history_at_most_100[of "[]" "sconst 0" "sconst 0" False full_engine example_detection] len
  show ?thesis by blast
qed

subsection \<open>Stopping\<close>




lemma handleIfConfident_same [simp]:
  "isActive (handleIfConfident d s) = isActive s"
  "trackingEnabled (handleIfConfident d s) = trackingEnabled s"
  "currentModel (handleIfConfident d s) = currentModel s"
  "confidence (handleIfConfident d s) = confidence s"
  "trackingId (handleIfConfident d s) = trackingId s"
  "randoms (handleIfConfident d s) = randoms s"
  "videoHandler (handleIfConfident d s) = videoHandler s"
  "rafQueue (handleIfConfident d s) = rafQueue s"
  by (simp_all add: handleIfConfident_def)

lemma fold_handle_same [simp]:
  "isActive (fold handleIfConfident ds s) = isActive s"
  "trackingEnabled (fold handleIfConfident ds s) = trackingEnabled s"
  "currentModel (fold handleIfConfident ds s) = currentModel s"
  "confidence (fold handleIfConfident ds s) = confidence s"
  "trackingId (fold handleIfConfident ds s) = trackingId s"
  "randoms (fold handleIfConfident ds s) = randoms s"
  "videoHandler (fold handleIfConfident ds s) = videoHandler s"
  "rafQueue (fold handleIfConfident ds s) = rafQueue s"
  by (induction ds arbitrary: s) simp_all

lemma processFrame_same [simp]:
  "isActive (processFrame s) = isActive s"
  "trackingEnabled (processFrame s) = trackingEnabled s"
  "currentModel (processFrame s) = currentModel s"
  "confidence (processFrame s) = confidence s"
  "videoHandler (processFrame s) = videoHandler s"
  "rafQueue (processFrame s) = rafQueue s"
  by (simp_all add: processFrame_def split_beta updatePerformanceMetrics_def)

lemma framesProcessed_rafQueue [simp]:
  "framesProcessed (s\<lparr>rafQueue := n\<rparr>) = framesProcessed s"
  by (simp add: framesProcessed_def)











subsection \<open>Identifiers\<close>


lemma generateDetection_trackingId:
  "trackingId (snd (generateDetection c s)) =
     (if trackingEnabled s then js_incr (trackingId s) else trackingId s)"
  "trackingEnabled (snd (generateDetection c s)) = trackingEnabled s"
  by (simp_all add: generateDetection_snd)


lemma generateDetections_length [simp]:
  "length (fst (generateDetections n c s)) = n"
  by (induction n arbitrary: s) (simp_all add: split_beta)

lemma generateDetections_enabled [simp]:
  "trackingEnabled (snd (generateDetections n c s)) = trackingEnabled s"
  by (induction n arbitrary: s) (simp_all add: split_beta generateDetection_trackingId)




text \<open>The same for a whole frame.\<close>

lemma simulateDetections_enabled [simp]:
  "trackingEnabled (snd (simulateDetections s)) = trackingEnabled s"
  by simp






lemma det_ids_simps [simp]:
  "det_ids [] = []"
  "det_ids (d # ds) = (case det_id d of Some i \<Rightarrow> [i] | None \<Rightarrow> []) @ det_ids ds"
  "det_ids (ds @ ds') = det_ids ds @ det_ids ds'"
  by (simp_all add: det_ids_def)






lemma logged_handled_effects [simp]: "concat (map logged (handled_effects d s)) = [d]"
  by (simp add: handled_effects_def)

lemma handled_effects_cong:
  "videoHandler s' = videoHandler s \<Longrightarrow> currentModel s' = currentModel s \<Longrightarrow>
   handled_effects d s' = handled_effects d s"
  by (simp add: handled_effects_def)


















subsection \<open>Switching the model\<close>

lemma generateDetection_relabel:
  "generateDetection c (s\<lparr>currentModel := m, effects := e\<rparr>) =
     apsnd (\<lambda>t. t\<lparr>currentModel := m, effects := e\<rparr>) (generateDetection c s)"
  by (simp add: generateDetection_def generateBoundingBox_def getTrackingId_def mathRandom_def
      dateNow_def Let_def split_beta)

lemma generateDetections_relabel:
  "generateDetections n c (s\<lparr>currentModel := m, effects := e\<rparr>) =
     apsnd (\<lambda>t. t\<lparr>currentModel := m, effects := e\<rparr>) (generateDetections n c s)"
  by (induction n arbitrary: s) (simp_all add: generateDetection_relabel split_beta)

lemma simulateDetections_relabel:
  assumes "getModelConfig m = getModelConfig (currentModel s)"
  shows "fst (simulateDetections (s\<lparr>currentModel := m, effects := e\<rparr>)) = fst (simulateDetections s)"
proof -
  have r: "\<And>rs. s\<lparr>currentModel := m, effects := e, randoms := rs\<rparr> =
      s\<lparr>randoms := rs\<rparr>\<lparr>currentModel := m, effects := e\<rparr>" by simp
  show ?thesis
    using assms
    by (simp add: simulateDetections_def mathRandom_def Let_def split_beta r
        generateDetections_relabel del: engine.update_convs split: config_lookup.splits)
qed

lemma unknown_model_default:
  "modelName \<notin> set (map fst configs) \<Longrightarrow> modelName \<notin> set objectPrototypeKeys \<Longrightarrow>
   getModelConfig modelName = Config yolov11n"
  by (simp add: getModelConfig_def map_of_eq_None_iff[THEN iffD2] image_iff split: option.splits)

lemma simulate_count:
  "length (fst (simulateDetections s)) =
     (if shd (randoms s) > 0.8 then
        (case getModelConfig (currentModel s) of
           Config c \<Rightarrow> nat (\<lfloor>shd (stl (randoms s)) * real (maxDetections c)\<rfloor> + 1)
         | Inherited \<Rightarrow> 0)
      else 0)"
  by (simp add: simulateDetections_def mathRandom_def Let_def split_beta split: config_lookup.splits)

lemma inherited_member_detects_nothing:
  "modelName \<in> set objectPrototypeKeys \<Longrightarrow> fst (simulateDetections (setModel modelName s)) = []"
proof -
  assume "modelName \<in> set objectPrototypeKeys"
  then have "getModelConfig modelName = Inherited"
    by (auto simp add: getModelConfig_def configs_def objectPrototypeKeys_def)
  then have "length (fst (simulateDetections (setModel modelName s))) = 0"
    by (simp add: simulate_count setModel_def)
  then show ?thesis by simp
qed

text \<open>
  Claim C8, as the code has it. A request for a model the registry does not know (and that
  is not a member every object inherits) reports no error: \<open>setModel\<close> records the requested
  name as the current model and dispatches the loading event, nothing else, the name
  resolves to the configuration of \<open>yolov11n\<close>, and the frames that follow generate the
  detections they would under \<open>yolov11n\<close>.
\<close>

theorem unknown_model_runs_the_default:
  "modelName \<notin> set (map fst configs) \<Longrightarrow> modelName \<notin> set objectPrototypeKeys \<Longrightarrow>
     setModel modelName s = s\<lparr>currentModel := modelName, effects := effects s @ [ModelLoading True]\<rparr> \<and>
     getModelConfig modelName = Config yolov11n \<and>
     fst (simulateDetections (setModel modelName s)) =
       fst (simulateDetections (s\<lparr>currentModel := ''yolov11n''\<rparr>))"
proof -
  assume u: "modelName \<notin> set (map fst configs)" "modelName \<notin> set objectPrototypeKeys"
  have d: "getModelConfig modelName = Config yolov11n"
    using u by (rule unknown_model_default)
  have n: "getModelConfig ''yolov11n'' = Config yolov11n"
    by (simp add: getModelConfig_def configs_def)
  have sm: "setModel modelName s = s\<lparr>currentModel := modelName, effects := effects s @ [ModelLoading True]\<rparr>"
    by (simp add: setModel_def emit_def)
  have "setModel modelName s =
      (s\<lparr>currentModel := ''yolov11n''\<rparr>)\<lparr>currentModel := modelName, effects := effects s @ [ModelLoading True]\<rparr>"
    by (simp add: sm)
  moreover have "getModelConfig modelName = getModelConfig (currentModel (s\<lparr>currentModel := ''yolov11n''\<rparr>))"
    by (simp add: d n)
  ultimately have "fst (simulateDetections (setModel modelName s)) =
       fst (simulateDetections (s\<lparr>currentModel := ''yolov11n''\<rparr>))"
    using simulateDetections_relabel by metis
  with d sm show ?thesis by simp
qed

theorem unknown_model_runs_the_default_witness:
  "''yolov12x'' \<notin> set (map fst configs) \<and> ''yolov12x'' \<notin> set objectPrototypeKeys \<and>
   currentModel (setModel ''yolov12x'' (setModel ''yolov11m'' busy_engine)) = ''yolov12x'' \<and>
   fst (simulateDetections (setModel ''yolov12x'' (setModel ''yolov11m'' busy_engine))) =
     fst (simulateDetections ((setModel ''yolov11m'' busy_engine)\<lparr>currentModel := ''yolov11n''\<rparr>))"
proof -
  have u: "''yolov12x'' \<notin> set (map fst configs)" "''yolov12x'' \<notin> set objectPrototypeKeys"
    by (simp_all add: configs_def objectPrototypeKeys_def)
  have c: "currentModel (setModel ''yolov12x'' (setModel ''yolov11m'' busy_engine)) = ''yolov12x''"
    by (simp add: setModel_def)
  from unknown_model_runs_the_default[OF u, of "setModel ''yolov11m'' busy_engine"] u c
  show ?thesis by blast
qed

text \<open>
  Claim C8 as stated fails: with \<open>yolov11m\<close> active, a switch to the unknown \<open>yolov12x\<close>
  dispatches the loading event and no error, makes \<open>yolov12x\<close> the current model, and the
  next frame, which would have generated five detections under the model that was active,
  generates three: neither the previous adapter nor one that reports nothing.
\<close>

theorem unknown_model_neither_previous_nor_null:
  "effects (setModel ''yolov12x'' (setModel ''yolov11m'' busy_engine)) =
     [ModelLoading True, ModelLoading True] \<and>
   currentModel (setModel ''yolov12x'' (setModel ''yolov11m'' busy_engine)) = ''yolov12x'' \<and>
   length (fst (simulateDetections (setModel ''yolov11m'' busy_engine))) = 5 \<and>
   length (fst (simulateDetections (setModel ''yolov12x'' (setModel ''yolov11m'' busy_engine)))) = 3"
  by (simp add: simulate_count busy_engine_def newEngine_def setModel_def emit_def
      getModelConfig_def configs_def objectPrototypeKeys_def yolov11m_def yolov11n_def)

subsection \<open>What a frame depends on\<close>

lemma agree_fields:
  assumes "agree k j s s'"
  shows "isActive s' = isActive s" "trackingEnabled s' = trackingEnabled s"
    "currentModel s' = currentModel s" "confidence s' = confidence s"
    "detectedObjects s' = detectedObjects s" "trackingId s' = trackingId s"
    "detectionHistory s' = detectionHistory s" "videoHandler s' = videoHandler s"
    "rafQueue s' = rafQueue s" "effects s' = effects s"
proof -
  from assms have e: "s'\<lparr>randoms := randoms s, clock := clock s\<rparr> = s"
    by (simp add: agree_def)
  show "isActive s' = isActive s" using arg_cong[OF e, of isActive] by simp
  show "trackingEnabled s' = trackingEnabled s" using arg_cong[OF e, of trackingEnabled] by simp
  show "currentModel s' = currentModel s" using arg_cong[OF e, of currentModel] by simp
  show "confidence s' = confidence s" using arg_cong[OF e, of confidence] by simp
  show "detectedObjects s' = detectedObjects s" using arg_cong[OF e, of detectedObjects] by simp
  show "trackingId s' = trackingId s" using arg_cong[OF e, of trackingId] by simp
  show "detectionHistory s' = detectionHistory s" using arg_cong[OF e, of detectionHistory] by simp
  show "videoHandler s' = videoHandler s" using arg_cong[OF e, of videoHandler] by simp
  show "rafQueue s' = rafQueue s" using arg_cong[OF e, of rafQueue] by simp
  show "effects s' = effects s" using arg_cong[OF e, of effects] by simp
qed

lemma agreeI:
  assumes "isActive s' = isActive s" "trackingEnabled s' = trackingEnabled s"
    "currentModel s' = currentModel s" "confidence s' = confidence s"
    "detectedObjects s' = detectedObjects s" "trackingId s' = trackingId s"
    "detectionHistory s' = detectionHistory s" "videoHandler s' = videoHandler s"
    "rafQueue s' = rafQueue s" "effects s' = effects s"
    "stake k (randoms s') = stake k (randoms s)" "stake j (clock s') = stake j (clock s)"
  shows "agree k j s s'"
  using assms unfolding agree_def by (cases s, cases s') simp




lemma agree_dateNow:
  assumes "agree k (Suc j) s s'"
  shows "fst (dateNow s') = fst (dateNow s)"
    and "agree k j (snd (dateNow s)) (snd (dateNow s'))"
proof -
  from assms have st: "stake k (randoms s') = stake k (randoms s)"
    and ck: "stake (Suc j) (clock s') = stake (Suc j) (clock s)"
    by (simp_all add: agree_def)
  from ck show "fst (dateNow s') = fst (dateNow s)"
    by (simp add: dateNow_def)
  from ck have "stake j (stl (clock s')) = stake j (stl (clock s))" by simp
  with st agree_fields[OF assms] show "agree k j (snd (dateNow s)) (snd (dateNow s'))"
    by (intro agreeI) (simp_all add: dateNow_def)
qed

















section \<open>Properties of the video handler\<close>







section \<open>Properties of track expiry\<close>

lemma update_matched_live:
  "track_state t \<noteq> Removed \<Longrightarrow>
   track_state (update_matched t) = Confirmed \<and> time_since_update (update_matched t) = 0"
  by (cases "track_state t") (simp_all add: update_matched_def)

lemma age_unmatched_step:
  "time_since_update (age_unmatched b t) = Suc (time_since_update t)"
  "track_state (age_unmatched b t) =
     (case track_state t of
        Confirmed \<Rightarrow> Lost
      | Lost \<Rightarrow> if b < Suc (time_since_update t) then Removed else Lost
      | st \<Rightarrow> st)"
  by (simp_all add: age_unmatched_def Let_def split: track_state.splits)

lemma aged_track:
  assumes "track_state t = Confirmed" and "time_since_update t = 0"
  shows "time_since_update ((age_unmatched b ^^ k) t) = k \<and>
         track_state ((age_unmatched b ^^ k) t) =
           (if k = 0 then Confirmed else if k = 1 \<or> k \<le> b then Lost else Removed)"
proof (induction k)
  case 0
  with assms show ?case by simp
next
  case (Suc k)
  let ?u = "(age_unmatched b ^^ k) t"
  from Suc have u: "time_since_update ?u = k"
    "track_state ?u = (if k = 0 then Confirmed else if k = 1 \<or> k \<le> b then Lost else Removed)"
    by simp_all
  have "time_since_update (age_unmatched b ?u) = Suc k"
    by (simp add: age_unmatched_step u)
  moreover have "track_state (age_unmatched b ?u) =
      (if Suc k = 1 \<or> Suc k \<le> b then Lost else Removed)"
  proof (cases "k = 0")
    case True
    with assms show ?thesis by (simp add: age_unmatched_step)
  next
    case False
    then show ?thesis
      unfolding age_unmatched_step u by (auto simp add: not_less_eq_eq)
  qed
  ultimately show ?case by simp
qed

lemma aged_live_set:
  assumes "track_state t = Confirmed" and "time_since_update t = 0"
  shows "(age_all b ^^ k) [t] =
           (if track_state ((age_unmatched b ^^ k) t) = Removed then []
            else [(age_unmatched b ^^ k) t])"
proof (induction k)
  case 0
  with assms show ?case by simp
next
  case (Suc k)
  note a = aged_track[OF assms, where b = b]
  show ?case
  proof (cases "track_state ((age_unmatched b ^^ k) t) = Removed")
    case True
    with a[where k = k] a[where k = "Suc k"] have "track_state ((age_unmatched b ^^ Suc k) t) = Removed"
      by (auto split: if_splits)
    with True Suc show ?thesis by (simp add: age_all_def)
  next
    case False
    with Suc show ?thesis by (simp add: age_all_def)
  qed
qed

text \<open>
  Claim C5, as the modelled steps have it. A live track that is matched at frame \<open>f\<close> and
  never again is Removed at frame \<open>f + k\<close> exactly when \<open>k\<close> exceeds the track buffer (a
  buffer of at least one frame): it is still in the live set at frame \<open>f + track_buffer\<close>
  and gone from frame \<open>f + track_buffer + 1\<close> on.
\<close>

theorem track_removed_once_buffer_exceeded:
  "0 < buffer \<Longrightarrow> track_state t \<noteq> Removed \<Longrightarrow>
     (track_state ((age_unmatched buffer ^^ k) (update_matched t)) = Removed \<longleftrightarrow> buffer < k) \<and>
     (age_all buffer ^^ k) [update_matched t] =
       (if k \<le> buffer then [(age_unmatched buffer ^^ k) (update_matched t)] else [])"
proof -
  assume b: "0 < buffer" and l: "track_state t \<noteq> Removed"
  from update_matched_live[OF l]
  have c: "track_state (update_matched t) = Confirmed" "time_since_update (update_matched t) = 0"
    by simp_all
  from aged_track[OF c, where b = buffer and k = k] b
  have r: "track_state ((age_unmatched buffer ^^ k) (update_matched t)) = Removed \<longleftrightarrow> buffer < k"
    by (auto split: if_splits)
  with aged_live_set[OF c, where b = buffer and k = k] show ?thesis by auto
qed

theorem track_removed_once_buffer_exceeded_witness:
  "0 < track_buffer \<and> track_state example_track \<noteq> Removed \<and>
   track_state ((age_unmatched track_buffer ^^ 31) (update_matched example_track)) = Removed \<and>
   (age_all track_buffer ^^ 31) [update_matched example_track] = []"
proof -
  have h: "0 < track_buffer" "track_state example_track \<noteq> Removed"
    by (simp_all add: track_buffer_def example_track_def)
  from track_removed_once_buffer_exceeded[OF h, where k = 31] h show ?thesis
    by (simp add: track_buffer_def)
qed

text \<open>
  Claim C5 as stated, with the track removed at frame \<open>f + track_buffer\<close>, fails: with the
  configured buffer of 30 frames, a track matched at frame \<open>f\<close> is Lost, not Removed, at
  frame \<open>f + 30\<close>, and still in the live set; its time since update is 30 and does not
  exceed the buffer.
\<close>

theorem track_still_live_at_buffer:
  "track_state ((age_unmatched track_buffer ^^ track_buffer) (update_matched example_track)) = Lost \<and>
   (age_all track_buffer ^^ track_buffer) [update_matched example_track] =
     [\<lparr>track_ident = 1, track_state = Lost, time_since_update = 30\<rparr>]"
proof -
  have l: "track_state example_track \<noteq> Removed" by (simp add: example_track_def)
  note c = update_matched_live[OF l]
  from c have c1: "track_state (update_matched example_track) = Confirmed"
    and c2: "time_since_update (update_matched example_track) = 0" by simp_all
  have i: "track_ident ((age_unmatched b ^^ k) t) = track_ident t" for b k t
    by (induction k) (simp_all add: age_unmatched_def Let_def split: track_state.splits)
  have "track_ident (update_matched example_track) = 1"
    by (simp add: update_matched_def example_track_def)
  with aged_track[OF c1 c2, where b = track_buffer and k = track_buffer]
    i[of track_buffer track_buffer "update_matched example_track"]
  have "(age_unmatched track_buffer ^^ track_buffer) (update_matched example_track) =
      \<lparr>track_ident = 1, track_state = Lost, time_since_update = 30\<rparr>"
    by (cases "(age_unmatched track_buffer ^^ track_buffer) (update_matched example_track)")
       (simp add: track_buffer_def)
  with aged_live_set[OF c1 c2, where b = track_buffer and k = track_buffer] show ?thesis by simp
qed

end
